theory Spec2Isabelle
  imports Main "HOL-Library.AList" "HOL-Library.Sublist"
begin

section \<open>JavaScript values and plain objects\<close>

text \<open>
  The bridge class \<^verbatim>\<open>SmsBridge\<close> (\<^verbatim>\<open>src/SmsBridge.js\<close>) handles user identifiers,
  room identifiers and optional arguments. The values that reach the code paths studied
  here are strings, \<^verbatim>\<open>null\<close> and \<^verbatim>\<open>undefined\<close>; numbers, booleans and objects in these
  positions are outside the model.
\<close>

datatype jsval = Undefined | Null | Str string

text \<open>Truthiness of a value: \<^verbatim>\<open>undefined\<close>, \<^verbatim>\<open>null\<close> and the empty string are falsy.\<close>

definition truthy :: "jsval \<Rightarrow> bool" where
  "truthy v = (case v of Str s \<Rightarrow> s \<noteq> [] | Null \<Rightarrow> False | Undefined \<Rightarrow> False)"

text \<open>The operator \<^verbatim>\<open>a || b\<close>: the left operand when it is truthy, else the right one.\<close>

definition js_or :: "jsval \<Rightarrow> jsval \<Rightarrow> jsval" where
  "js_or a b = (if truthy a then a else b)"

text \<open>
  The own properties of an object with string keys are a list in creation order (keys are
  distinct). \<^verbatim>\<open>_.keys\<close> (lodash, \<^verbatim>\<open>Object.keys\<close>) lists the own keys only: those that
  are array indices first, in ascending numeric order, then the other keys in creation
  order. Reading and assigning a property also involve the prototype of the object; they
  are defined for the directory of the bridge below.
\<close>

type_synonym 'v js_object = "(string \<times> 'v) list"

definition is_digit :: "char \<Rightarrow> bool" where
  "is_digit c = (c \<in> set ''0123456789'')"

definition dec_val :: "string \<Rightarrow> nat" where
  "dec_val s = foldl (\<lambda>n c. 10 * n + (of_char c - 48)) 0 s"

text \<open>An array index is the canonical decimal numeral of an integer from 0 to 2^32 - 2.\<close>

definition is_array_index :: "string \<Rightarrow> bool" where
  "is_array_index s =
     (s \<noteq> [] \<and> list_all is_digit s \<and> (s = ''0'' \<or> hd s \<noteq> CHR ''0'') \<and> dec_val s < 4294967295)"

definition js_keys :: "'v js_object \<Rightarrow> string list" where
  "js_keys obj =
     sort_key dec_val (filter is_array_index (map fst obj)) @
     filter (\<lambda>k. \<not> is_array_index k) (map fst obj)"

text \<open>\<^verbatim>\<open>xs.indexOf(x)\<close>: the first position of \<open>x\<close>, or -1.\<close>

fun indexOf :: "string list \<Rightarrow> string \<Rightarrow> int" where
  "indexOf [] x = -1"
| "indexOf (y # ys) x =
     (if y = x then 0 else (let i = indexOf ys x in if i < 0 then -1 else i + 1))"

text \<open>\<^verbatim>\<open>xs[i]\<close> on an array of strings: \<^verbatim>\<open>undefined\<close> out of range.\<close>

definition js_index :: "string list \<Rightarrow> nat \<Rightarrow> jsval" where
  "js_index xs i = (if i < length xs then Str (xs ! i) else Undefined)"

definition startsWith :: "string \<Rightarrow> string \<Rightarrow> bool" where
  "startsWith s p = prefix p s"

definition endsWith :: "string \<Rightarrow> string \<Rightarrow> bool" where
  "endsWith s p = suffix p s"

section \<open>Bridge state, configuration and collaborators\<close>

datatype error = TransportError | TypeError | Error string

text \<open>
  How a call ends: it throws synchronously, it returns \<^verbatim>\<open>undefined\<close> (no promise), or it
  returns a promise that is later rejected or resolved.
\<close>

datatype 'a outcome = Throws error | Returned | Rejected error | Resolved 'a

text \<open>
  Modelled from the spec: the class \<^verbatim>\<open>AdminRoom\<close> (\<^verbatim>\<open>./matrix/AdminRoom\<close>) is not among the
  sources. Section 3 of the specification gives an administrative session the fields
  \<open>roomId\<close> and \<open>owner\<close>; \<^verbatim>\<open>new AdminRoom(roomId, bridge, owner)\<close> stores its first and third
  argument there and does not throw. \<^verbatim>\<open>getOrCreateAdminRoom\<close> reads the field \<open>owner\<close>.
\<close>

record AdminRoom =
  roomId :: string
  owner :: jsval

text \<open>
  The directory \<^verbatim>\<open>this._adminRooms\<close> is created as a plain object \<^verbatim>\<open>{}\<close> and written only by
  \<^verbatim>\<open>this._adminRooms[roomId] = new AdminRoom(...)\<close>. Besides its own properties it has a
  prototype: \<^verbatim>\<open>Object.prototype\<close> at first (\<open>proto = None\<close>), and the session assigned
  last under the key \<^verbatim>\<open>__proto__\<close> afterwards, since that assignment runs the setter of
  \<^verbatim>\<open>Object.prototype\<close>, which replaces the prototype and creates no own property.
\<close>

record directory =
  props :: "AdminRoom js_object"
  proto :: "AdminRoom option"

text \<open>
  What \<^verbatim>\<open>this._adminRooms[k]\<close> evaluates to: a session, a built-in function or object
  inherited from \<^verbatim>\<open>Object.prototype\<close> (truthy, with neither \<^verbatim>\<open>handleEvent\<close> nor \<^verbatim>\<open>owner\<close>), or
  a plain value, \<^verbatim>\<open>undefined\<close> when there is no such property.
\<close>

datatype dirval = Session AdminRoom | Builtin | Plain jsval

definition truthy_val :: "dirval \<Rightarrow> bool" where
  "truthy_val v = (case v of Session room \<Rightarrow> True | Builtin \<Rightarrow> True | Plain x \<Rightarrow> truthy x)"

text \<open>\<^verbatim>\<open>v.owner\<close>: the field of a session; \<^verbatim>\<open>undefined\<close> on a function, an object or a string.\<close>

definition owner_of :: "dirval \<Rightarrow> jsval" where
  "owner_of v =
     (case v of Session room \<Rightarrow> owner room | Builtin \<Rightarrow> Undefined | Plain x \<Rightarrow> Undefined)"

text \<open>The properties every object inherits from \<^verbatim>\<open>Object.prototype\<close>, \<^verbatim>\<open>__proto__\<close> apart.\<close>

definition objectPrototype :: "string \<Rightarrow> dirval" where
  "objectPrototype k =
     (if k \<in> set [''constructor'', ''toString'', ''toLocaleString'', ''valueOf'',
                  ''hasOwnProperty'', ''isPrototypeOf'', ''propertyIsEnumerable'',
                  ''__defineGetter__'', ''__defineSetter__'', ''__lookupGetter__'',
                  ''__lookupSetter__'']
      then Builtin else Plain Undefined)"

text \<open>
  The state of the bridge: the directory \<^verbatim>\<open>this._adminRooms\<close>, and a log of the effects on
  the homeserver that the claims speak of: the texts sent by the bot (\<^verbatim>\<open>sendText\<close>) and the
  invitees of the rooms the bot asked to create (\<^verbatim>\<open>createRoom\<close>). Calls to \<^verbatim>\<open>LogService\<close>
  do not influence control flow and are left out.
\<close>

record bridge_state =
  adminRooms :: directory
  sent :: "(string \<times> string) list"
  created :: "jsval list"

text \<open>
  \<^verbatim>\<open>this._bridge.getBot().getUserId()\<close> and \<^verbatim>\<open>this._config.homeserver.domain\<close>.
\<close>

record config =
  botUserId :: string
  domain :: string

text \<open>
  An event as \<^verbatim>\<open>request.getData()\<close> gives it: \<^verbatim>\<open>type\<close> and \<^verbatim>\<open>room_id\<close> are strings; \<^verbatim>\<open>sender\<close>,
  \<^verbatim>\<open>state_key\<close> and \<^verbatim>\<open>content.membership\<close> may be missing, and so may \<^verbatim>\<open>content\<close> itself
  (\<open>None\<close>).
\<close>

record content =
  membership :: jsval

record event =
  type :: string
  sender :: jsval
  room_id :: string
  state_key :: jsval
  content :: "content option"

text \<open>The object \<^verbatim>\<open>getJoinedMembers\<close> resolves to: user id to profile; only its keys are read.\<close>

type_synonym members = "unit js_object"

text \<open>
  The collaborators, as the answers they give. \<open>getJoinedMembers\<close> is the answer of
  the homeserver for a room (\<open>Inl\<close>: the promise is rejected); \<open>join\<close> the answer to
  \<^verbatim>\<open>getIntent(userId).join(roomId)\<close>; \<open>createRoom\<close> the answer to the bot's
  \<^verbatim>\<open>createRoom\<close> for an invitee, given how many rooms were requested before (the new
  room's id, \<^verbatim>\<open>room.room_id\<close>). Two members of the class \<^verbatim>\<open>AdminRoom\<close>, which is not among
  the sources, are parameters as well: \<open>handleEvent\<close> is \<^verbatim>\<open>AdminRoom.handleEvent\<close>, which may
  throw or change the state, and \<open>instanceProperty a k\<close> is what \<^verbatim>\<open>a[k]\<close> evaluates to on
  a session \<open>a\<close> for a key other than \<^verbatim>\<open>__proto__\<close> (its fields and methods, then those of
  \<^verbatim>\<open>Object.prototype\<close>); the class is taken to define no setters and no read-only
  properties.
\<close>

record env =
  getJoinedMembers :: "string \<Rightarrow> error + members"
  join :: "string \<Rightarrow> string \<Rightarrow> error option"
  createRoom :: "jsval \<Rightarrow> nat \<Rightarrow> error + string"
  handleEvent :: "AdminRoom \<Rightarrow> event \<Rightarrow> bridge_state \<Rightarrow> error + bridge_state"
  instanceProperty :: "AdminRoom \<Rightarrow> string \<Rightarrow> dirval"

text \<open>
  \<^verbatim>\<open>this._adminRooms[k]\<close>: an own property first, then the prototype chain. The getter of
  \<^verbatim>\<open>__proto__\<close> gives the prototype itself.
\<close>

definition js_get :: "env \<Rightarrow> directory \<Rightarrow> string \<Rightarrow> dirval" where
  "js_get tr d k =
     (case map_of (props d) k of
        Some room \<Rightarrow> Session room
      | None \<Rightarrow>
          if k = ''__proto__'' then (case proto d of None \<Rightarrow> Builtin | Some a \<Rightarrow> Session a)
          else (case proto d of None \<Rightarrow> objectPrototype k | Some a \<Rightarrow> instanceProperty tr a k))"

text \<open>
  \<^verbatim>\<open>this._adminRooms[k] = v\<close> for a session \<open>v\<close>: an own property is overwritten in place;
  otherwise the key \<^verbatim>\<open>__proto__\<close> replaces the prototype, and any other key becomes a new own
  property, the last in creation order.
\<close>

definition js_set :: "directory \<Rightarrow> string \<Rightarrow> AdminRoom \<Rightarrow> directory" where
  "js_set d k v =
     (if k = ''__proto__'' \<and> k \<notin> fst ` set (props d) then d\<lparr>proto := Some v\<rparr>
      else d\<lparr>props := AList.update k v (props d)\<rparr>)"

text \<open>String concatenation \<^verbatim>\<open>"..." + v\<close>.\<close>

definition js_toString :: "jsval \<Rightarrow> string" where
  "js_toString v = (case v of Str x \<Rightarrow> x | Null \<Rightarrow> ''null'' | Undefined \<Rightarrow> ''undefined'')"

section \<open>The operations of \<^verbatim>\<open>SmsBridge\<close>\<close>

text \<open>
  Modelled from the spec: \<^verbatim>\<open>getIntentFromLocalpart\<close> belongs to the library
  \<^verbatim>\<open>matrix-appservice-bridge\<close>, which is not among the sources; it gives the intent of the
  user \<^verbatim>\<open>"@" + localpart + ":" + domain\<close> for the domain the bridge was constructed with
  (\<^verbatim>\<open>this._config.homeserver.domain\<close>), the form the README shows
  (\<^verbatim>\<open>@_sms_15551234567:yourdomain.com\<close>). An intent is modelled by its user id.
\<close>

definition getIntentFromLocalpart :: "config \<Rightarrow> string \<Rightarrow> string" where
  "getIntentFromLocalpart cfg localpart = ''@'' @ localpart @ '':'' @ domain cfg"

definition getSmsIntent :: "config \<Rightarrow> string \<Rightarrow> string" where
  "getSmsIntent cfg phoneNumber = getIntentFromLocalpart cfg (''_sms_'' @ phoneNumber)"

text \<open>
  \<^verbatim>\<open>isBridgeUser(handle)\<close>. The bot's id, a string, is never loosely equal to
  \<^verbatim>\<open>undefined\<close> or \<^verbatim>\<open>null\<close>, and then \<^verbatim>\<open>handle.startsWith\<close> throws a \<^verbatim>\<open>TypeError\<close>.
\<close>

definition isBridgeUser :: "config \<Rightarrow> jsval \<Rightarrow> error + bool" where
  "isBridgeUser cfg handle =
     (case handle of
        Str h \<Rightarrow>
          Inr (botUserId cfg = h \<or>
               (startsWith h ''@_sms_'' \<and> endsWith h ('':'' @ domain cfg)))
      | Null \<Rightarrow> Inl TypeError
      | Undefined \<Rightarrow> Inl TypeError)"

definition welcomeText :: string where
  "welcomeText = ''Hello! This room can be used to manage various aspects of the bridge. Although this currently doesn't do anything, it will be more active in the future.''"

text \<open>
  \<^verbatim>\<open>_processRoom(roomId, adminRoomOwner = null, newRoom = false)\<close>. The default value
  replaces \<^verbatim>\<open>undefined\<close> only. The promise of \<^verbatim>\<open>sendText\<close> is not awaited: its failure
  does not reach the caller.
\<close>

definition processRoom ::
  "config \<Rightarrow> env \<Rightarrow> string \<Rightarrow> jsval \<Rightarrow> bool \<Rightarrow> bridge_state \<Rightarrow> unit outcome \<times> bridge_state" where
  "processRoom cfg tr rid adminRoomOwner0 newRoom s =
     (let adminRoomOwner = (if adminRoomOwner0 = Undefined then Null else adminRoomOwner0) in
      case getJoinedMembers tr rid of
        Inl e \<Rightarrow> (Rejected e, s)
      | Inr members \<Rightarrow>
          let roomMemberIds = js_keys members;
              botIdx = indexOf roomMemberIds (botUserId cfg)
          in if length roomMemberIds = 2 \<or> truthy adminRoomOwner then
               let otherUserId = js_index roomMemberIds (if botIdx = 0 then 1 else 0);
                   s1 = s\<lparr>adminRooms := js_set (adminRooms s) rid
                          \<lparr>roomId = rid, owner = js_or otherUserId adminRoomOwner\<rparr>\<rparr>
               in (Resolved (),
                   if newRoom then s1\<lparr>sent := sent s1 @ [(rid, welcomeText)]\<rparr> else s1)
             else (Resolved (), s))"

text \<open>
  The loop at the head of \<^verbatim>\<open>getOrCreateAdminRoom\<close>, over \<^verbatim>\<open>_.keys(this._adminRooms)\<close>:
  a falsy entry is skipped, an entry whose \<^verbatim>\<open>owner\<close> is strictly equal to \<^verbatim>\<open>userId\<close> is
  returned.
\<close>

fun ownerScan :: "env \<Rightarrow> directory \<Rightarrow> string list \<Rightarrow> jsval \<Rightarrow> dirval option" where
  "ownerScan tr rooms [] userId = None"
| "ownerScan tr rooms (rid # roomIds) userId =
     (if \<not> truthy_val (js_get tr rooms rid) then ownerScan tr rooms roomIds userId
      else if owner_of (js_get tr rooms rid) = userId then Some (js_get tr rooms rid)
      else ownerScan tr rooms roomIds userId)"

text \<open>
  \<^verbatim>\<open>getOrCreateAdminRoom(userId)\<close> in its two parts: the synchronous part (the scan and, on
  a miss, the request to create a room), and the continuation that runs once the
  homeserver has answered that request.
\<close>

datatype scan_result = Found dirval | Creating nat

definition getOrCreateAdminRoom_scan ::
  "env \<Rightarrow> jsval \<Rightarrow> bridge_state \<Rightarrow> scan_result \<times> bridge_state" where
  "getOrCreateAdminRoom_scan tr userId s =
     (case ownerScan tr (adminRooms s) (js_keys (props (adminRooms s))) userId of
        Some room \<Rightarrow> (Found room, s)
      | None \<Rightarrow> (Creating (length (created s)), s\<lparr>created := created s @ [userId]\<rparr>))"

definition getOrCreateAdminRoom_then ::
  "config \<Rightarrow> env \<Rightarrow> jsval \<Rightarrow> nat \<Rightarrow> bridge_state \<Rightarrow> dirval outcome \<times> bridge_state" where
  "getOrCreateAdminRoom_then cfg tr userId n s =
     (case createRoom tr userId n of
        Inl e \<Rightarrow> (Rejected e, s)
      | Inr newRoomId \<Rightarrow>
          (case processRoom cfg tr newRoomId userId False s of
             (Resolved u, s') \<Rightarrow>
               if truthy_val (js_get tr (adminRooms s') newRoomId)
               then (Resolved (js_get tr (adminRooms s') newRoomId), s')
               else (Rejected (Error (''Could not create admin room for '' @ js_toString userId)), s')
           | (Rejected e, s') \<Rightarrow> (Rejected e, s')
           | (Throws e, s') \<Rightarrow> (Rejected e, s')
           | (Returned, s') \<Rightarrow> (Rejected TypeError, s')))"

definition getOrCreateAdminRoom ::
  "config \<Rightarrow> env \<Rightarrow> jsval \<Rightarrow> bridge_state \<Rightarrow> dirval outcome \<times> bridge_state" where
  "getOrCreateAdminRoom cfg tr userId s =
     (case getOrCreateAdminRoom_scan tr userId s of
        (Found room, s') \<Rightarrow> (Resolved room, s')
      | (Creating n, s') \<Rightarrow> getOrCreateAdminRoom_then cfg tr userId n s')"


text \<open>
  \<^verbatim>\<open>_tryProcessAdminEvent(event)\<close>: whatever truthy value \<^verbatim>\<open>this._adminRooms[roomId]\<close> gives
  is sent \<^verbatim>\<open>handleEvent\<close>. On a value that is not a session (an inherited function such as
  \<^verbatim>\<open>constructor\<close>, the prototype object, a string) \<^verbatim>\<open>handleEvent\<close> is \<^verbatim>\<open>undefined\<close> and the
  call throws a \<^verbatim>\<open>TypeError\<close>.
\<close>

definition tryProcessAdminEvent :: "env \<Rightarrow> event \<Rightarrow> bridge_state \<Rightarrow> error + bridge_state" where
  "tryProcessAdminEvent tr ev s =
     (case js_get tr (adminRooms s) (room_id ev) of
        Session room \<Rightarrow> handleEvent tr room ev s
      | Builtin \<Rightarrow> Inl TypeError
      | Plain v \<Rightarrow> if truthy v then Inl TypeError else Inr s)"

text \<open>\<^verbatim>\<open>_processMessage(event)\<close> has an empty body: it returns \<^verbatim>\<open>undefined\<close>.\<close>

definition processMessage :: "event \<Rightarrow> bridge_state \<Rightarrow> unit outcome \<times> bridge_state" where
  "processMessage ev s = (Returned, s)"

text \<open>
  The condition of the first branch of \<^verbatim>\<open>_onEvent\<close>, evaluated left to right:
  \<^verbatim>\<open>event.content.membership\<close> throws when \<^verbatim>\<open>content\<close> is missing.
\<close>

definition inviteForBridgeUser :: "config \<Rightarrow> event \<Rightarrow> error + bool" where
  "inviteForBridgeUser cfg ev =
     (if type ev = ''m.room.member'' then
        (case content ev of
           None \<Rightarrow> Inl TypeError
         | Some c \<Rightarrow>
             if membership c = Str ''invite'' then isBridgeUser cfg (state_key ev)
             else Inr False)
      else Inr False)"

text \<open>
  \<^verbatim>\<open>_onEvent(request, context)\<close>, on the event \<^verbatim>\<open>request.getData()\<close>. When the condition
  holds, \<^verbatim>\<open>state_key\<close> is a string (\<^verbatim>\<open>isBridgeUser\<close> has returned); the other two cases of
  \<open>state_key\<close> below are never reached. A failed join rejects the returned promise, and
  so does a rejection of \<^verbatim>\<open>_processRoom\<close>; nothing is caught.
\<close>

definition onEvent :: "config \<Rightarrow> env \<Rightarrow> event \<Rightarrow> bridge_state \<Rightarrow> unit outcome \<times> bridge_state" where
  "onEvent cfg tr ev s0 =
     (case tryProcessAdminEvent tr ev s0 of
        Inl e \<Rightarrow> (Throws e, s0)
      | Inr s \<Rightarrow>
          (case inviteForBridgeUser cfg ev of
             Inl e \<Rightarrow> (Throws e, s)
           | Inr True \<Rightarrow>
               (case state_key ev of
                  Str u \<Rightarrow>
                    (case join tr u (room_id ev) of
                       Some e \<Rightarrow> (Rejected e, s)
                     | None \<Rightarrow> processRoom cfg tr (room_id ev) Null True s)
                | Null \<Rightarrow> (Throws TypeError, s)
                | Undefined \<Rightarrow> (Throws TypeError, s))
           | Inr False \<Rightarrow>
               if type ev = ''m.room.message'' \<and> sender ev \<noteq> Str (botUserId cfg)
               then processMessage ev s
               else (Resolved (), s)))"

section \<open>Concrete inputs\<close>

text \<open>
  A bridge on \<^verbatim>\<open>example.org\<close>, the state of a freshly constructed bridge, and a homeserver
  that reports the same joined members for every room, accepts every join, names the
  rooms it creates \<^verbatim>\<open>!r1:example.org\<close> and \<^verbatim>\<open>!r2:example.org\<close>, with administrative
  sessions whose handler does nothing.
\<close>

definition ex_cfg :: config where
  "ex_cfg = \<lparr>botUserId = ''@smsbot:example.org'', domain = ''example.org''\<rparr>"

definition ex_state0 :: bridge_state where
  "ex_state0 = \<lparr>adminRooms = \<lparr>props = [], proto = None\<rparr>, sent = [], created = []\<rparr>"

definition ex_env :: "members \<Rightarrow> env" where
  "ex_env m =
     \<lparr>getJoinedMembers = (\<lambda>rid. Inr m),
      join = (\<lambda>u rid. None),
      createRoom = (\<lambda>u n. Inr (if n = 0 then ''!r1:example.org'' else ''!r2:example.org'')),
      handleEvent = (\<lambda>room ev s. Inr s),
      instanceProperty = (\<lambda>a k. Plain Undefined)\<rparr>"

definition bot_and_alice :: members where
  "bot_and_alice = [(''@smsbot:example.org'', ()), (''@alice:example.org'', ())]"

definition bot_alice_bob :: members where
  "bot_alice_bob =
     [(''@smsbot:example.org'', ()), (''@alice:example.org'', ()), (''@bob:example.org'', ())]"

definition only_bot :: members where
  "only_bot = [(''@smsbot:example.org'', ())]"

text \<open>A room of the bot and a member whose id is the empty string.\<close>

definition bot_and_nameless :: members where
  "bot_and_nameless = [(''@smsbot:example.org'', ()), ([], ())]"

text \<open>The room a user and a virtual user are in after the virtual user accepted an invite.\<close>

definition alice_and_virtual :: members where
  "alice_and_virtual = [(''@alice:example.org'', ()), (''@_sms_15551234567:example.org'', ())]"

text \<open>A homeserver that names the rooms it creates \<^verbatim>\<open>__proto__\<close> and \<^verbatim>\<open>!r2:example.org\<close>.\<close>

definition ex_env_proto :: env where
  "ex_env_proto =
     \<lparr>getJoinedMembers = (\<lambda>rid. Inr only_bot),
      join = (\<lambda>u rid. None),
      createRoom = (\<lambda>u n. Inr (if n = 0 then ''__proto__'' else ''!r2:example.org'')),
      handleEvent = (\<lambda>room ev s. Inr s),
      instanceProperty = (\<lambda>a k. Plain Undefined)\<rparr>"

text \<open>
  A homeserver that cannot be reached, an invite for a virtual user, a membership event
  that lacks its \<^verbatim>\<open>content\<close>, and a topic event for a room called \<^verbatim>\<open>constructor\<close>.
\<close>

definition ex_env_down :: env where
  "ex_env_down =
     \<lparr>getJoinedMembers = (\<lambda>rid. Inl TransportError),
      join = (\<lambda>u rid. None),
      createRoom = (\<lambda>u n. Inl TransportError),
      handleEvent = (\<lambda>room ev s. Inr s),
      instanceProperty = (\<lambda>a k. Plain Undefined)\<rparr>"

definition ex_invite :: event where
  "ex_invite =
     \<lparr>type = ''m.room.member'', sender = Str ''@alice:example.org'',
      room_id = ''!a:example.org'', state_key = Str ''@_sms_15551234567:example.org'',
      content = Some \<lparr>membership = Str ''invite''\<rparr>\<rparr>"

definition ex_member_event_without_content :: event where
  "ex_member_event_without_content =
     \<lparr>type = ''m.room.member'', sender = Str ''@alice:example.org'',
      room_id = ''!a:example.org'', state_key = Str ''@_sms_15551234567:example.org'',
      content = None\<rparr>"

definition ex_topic_event_constructor :: event where
  "ex_topic_event_constructor =
     \<lparr>type = ''m.room.topic'', sender = Str ''@alice:example.org'',
      room_id = ''constructor'', state_key = Str [],
      content = Some \<lparr>membership = Undefined\<rparr>\<rparr>"

section \<open>Properties\<close>

subsection \<open>Objects, keys and the classification of one room\<close>

lemma set_js_keys: "set (js_keys obj) = fst ` set obj"
  by (auto simp: js_keys_def)

lemma length_js_keys: "length (js_keys obj) = length obj"
  by (simp add: js_keys_def comp_def sum_length_filter_compl)

lemma distinct_js_keys: "distinct (map fst obj) \<Longrightarrow> distinct (js_keys obj)"
  by (auto simp: js_keys_def)

lemma two_keys:
  assumes "distinct (map fst m)" and "length m = 2"
  obtains a b where "js_keys m = [a, b]" and "a \<noteq> b" and "fst ` set m = {a, b}"
proof -
  have "length (js_keys m) = 2"
    using assms(2) by (simp add: length_js_keys)
  then obtain a b where ab: "js_keys m = [a, b]"
    by (auto simp: length_Suc_conv numeral_2_eq_2)
  have "distinct (js_keys m)"
    using assms(1) by (rule distinct_js_keys)
  with ab have "a \<noteq> b" by simp
  moreover have "fst ` set m = {a, b}"
    using set_js_keys [of m] ab by simp
  ultimately show thesis using ab that by blast
qed

lemma other_of_two:
  "js_index [a, b] (if indexOf [a, b] bid = 0 then 1 else 0) = Str (if a = bid then b else a)"
  by (simp add: js_index_def Let_def)

lemma truthy_default: "truthy (if ow = Undefined then Null else ow) = truthy ow"
  by (simp add: truthy_def)

text \<open>Reading and assigning properties of the directory.\<close>

lemma js_get_own: "map_of (props d) k = Some room \<Longrightarrow> js_get tr d k = Session room"
  by (simp add: js_get_def)

lemma js_set_proto:
  "k = ''__proto__'' \<and> k \<notin> fst ` set (props d) \<Longrightarrow> js_set d k v = d\<lparr>proto := Some v\<rparr>"
  unfolding js_set_def by (rule if_P)

lemma js_set_own:
  "\<not> (k = ''__proto__'' \<and> k \<notin> fst ` set (props d)) \<Longrightarrow>
   js_set d k v = d\<lparr>props := AList.update k v (props d)\<rparr>"
  unfolding js_set_def by (rule if_not_P)

lemma js_get_js_set_same: "js_get tr (js_set d k v) k = Session v"
proof (cases "k = ''__proto__'' \<and> k \<notin> fst ` set (props d)")
  case True
  then have k: "k = ''__proto__''" and nk: "k \<notin> fst ` set (props d)" by blast+
  from nk have "map_of (props d) k = None"
    by (simp add: map_of_eq_None_iff)
  then show ?thesis
    unfolding js_set_proto [OF True] using k by (simp add: js_get_def)
next
  case False
  show ?thesis
    unfolding js_set_own [OF False] by (simp add: js_get_def update_conv')
qed

lemma props_js_set:
  "k \<noteq> ''__proto__'' \<Longrightarrow> props (js_set d k v) = AList.update k v (props d)"
  by (simp add: js_set_def)

lemma js_set_twice: "js_set (js_set d k v) k v = js_set d k v"
proof (cases "k = ''__proto__'' \<and> k \<notin> fst ` set (props d)")
  case True
  have eq: "props (d\<lparr>proto := Some v\<rparr>) = props d"
    by simp
  from True have "k = ''__proto__'' \<and> k \<notin> fst ` set (props (d\<lparr>proto := Some v\<rparr>))"
    unfolding eq .
  then have "js_set (d\<lparr>proto := Some v\<rparr>) k v = d\<lparr>proto := Some v\<rparr>\<lparr>proto := Some v\<rparr>"
    by (rule js_set_proto)
  then show ?thesis
    unfolding js_set_proto [OF True] by simp
next
  case False
  let ?d = "d\<lparr>props := AList.update k v (props d)\<rparr>"
  have "k \<in> fst ` set (props ?d)"
    by (simp add: dom_update)
  then have "\<not> (k = ''__proto__'' \<and> k \<notin> fst ` set (props ?d))"
    by blast
  then have "js_set ?d k v = ?d\<lparr>props := AList.update k v (props ?d)\<rparr>"
    by (rule js_set_own)
  then show ?thesis
    unfolding js_set_own [OF False] by simp
qed

lemma distinct_js_set:
  "distinct (map fst (props d)) \<Longrightarrow> distinct (map fst (props (js_set d k v)))"
  by (simp add: js_set_def distinct_update)

lemma count_key_le: "distinct (map fst obj) \<Longrightarrow> length (filter (\<lambda>p. fst p = k) obj) \<le> 1"
  by (induction obj) (auto simp: filter_empty_conv image_iff)

lemma count_key_eq:
  "distinct (map fst obj) \<Longrightarrow> k \<in> fst ` set obj \<Longrightarrow> length (filter (\<lambda>p. fst p = k) obj) = 1"
  by (induction obj) (auto simp: filter_empty_conv image_iff)

lemma key_js_set: "k \<noteq> ''__proto__'' \<Longrightarrow> k \<in> fst ` set (props (js_set d k v))"
  by (simp add: js_set_def dom_update)

text \<open>The classification of one room.\<close>

lemma processRoom_rejected:
  "getJoinedMembers tr rid = Inl e \<Longrightarrow> processRoom cfg tr rid ow nr s = (Rejected e, s)"
  by (simp add: processRoom_def)

lemma processRoom_ordinary:
  "getJoinedMembers tr rid = Inr m \<Longrightarrow> length m \<noteq> 2 \<Longrightarrow> \<not> truthy ow \<Longrightarrow>
   processRoom cfg tr rid ow nr s = (Resolved (), s)"
  by (simp add: processRoom_def Let_def length_js_keys truthy_default)

lemma processRoom_admin:
  assumes "getJoinedMembers tr rid = Inr m" and "length m = 2 \<or> truthy ow"
    and "processRoom cfg tr rid ow nr s = (r, s')"
  shows "r = Resolved () \<and>
    adminRooms s' = js_set (adminRooms s) rid
      \<lparr>roomId = rid,
       owner = js_or (js_index (js_keys m) (if indexOf (js_keys m) (botUserId cfg) = 0 then 1 else 0))
                 (if ow = Undefined then Null else ow)\<rparr> \<and>
    sent s' = sent s @ (if nr then [(rid, welcomeText)] else []) \<and>
    created s' = created s"
  using assms by (auto simp: processRoom_def Let_def length_js_keys truthy_default)


lemma processRoom_never_throws: "fst (processRoom cfg tr rid ow nr s) \<noteq> Throws e"
  by (simp add: processRoom_def Let_def split: sum.splits)

text \<open>The owner scan sees the own properties only, in key order.\<close>

lemma ownerScan_find:
  "set ks \<subseteq> fst ` set (props d) \<Longrightarrow>
   ownerScan tr d ks u =
     map_option Session (find (\<lambda>room. owner room = u) (List.map_filter (map_of (props d)) ks))"
proof (induction ks)
  case Nil
  show ?case by (simp add: List.map_filter_simps)
next
  case (Cons k ks)
  then have "map_of (props d) k \<noteq> None"
    by (simp add: map_of_eq_None_iff)
  then obtain room where room: "map_of (props d) k = Some room"
    by auto
  with Cons show ?case
    by (simp add: js_get_own [OF room] truthy_val_def owner_of_def List.map_filter_simps)
qed

lemma scan_find:
  "ownerScan tr d (js_keys (props d)) u =
     map_option Session
       (find (\<lambda>room. owner room = u) (List.map_filter (map_of (props d)) (js_keys (props d))))"
  by (rule ownerScan_find) (simp add: set_js_keys)

lemma find_sessions_lookup:
  assumes "find (\<lambda>room. owner room = u) (List.map_filter (map_of obj) ks) = Some room"
  shows "owner room = u \<and> (\<exists>k \<in> set ks. map_of obj k = Some room)"
proof -
  from assms have "owner room = u" and "room \<in> set (List.map_filter (map_of obj) ks)"
    by (auto simp: find_Some_iff)
  then show ?thesis
    by (auto simp: List.map_filter_def)
qed

lemma find_sessions_exists:
  assumes "k \<in> set ks" and "map_of obj k = Some room0" and "owner room0 = u"
  shows "\<exists>room. find (\<lambda>room. owner room = u) (List.map_filter (map_of obj) ks) = Some room"
proof -
  have "room0 \<in> set (List.map_filter (map_of obj) ks)"
    using assms(1,2) by (force simp: List.map_filter_def)
  with assms(3) have "find (\<lambda>room. owner room = u) (List.map_filter (map_of obj) ks) \<noteq> None"
    by (auto simp: find_None_iff)
  then show ?thesis by auto
qed

lemmas eval_defs =
  processRoom_def js_keys_def is_array_index_def is_digit_def js_index_def js_or_def
  truthy_def truthy_val_def owner_of_def objectPrototype_def js_set_def js_get_def Let_def
  getOrCreateAdminRoom_def getOrCreateAdminRoom_scan_def getOrCreateAdminRoom_then_def
  ex_cfg_def ex_env_def ex_state0_def

subsection \<open>Recognising the identities the bridge controls\<close>

lemma sms_identity_iff:
  "startsWith h ''@_sms_'' \<and> endsWith h ('':'' @ d) \<longleftrightarrow> (\<exists>p. h = ''@_sms_'' @ p @ '':'' @ d)"
proof
  assume lhs: "startsWith h ''@_sms_'' \<and> endsWith h ('':'' @ d)"
  then obtain t where t: "h = ''@_sms_'' @ t"
    by (auto simp: startsWith_def elim: prefixE)
  from lhs obtain zs where zs: "h = zs @ '':'' @ d"
    by (auto simp: endsWith_def suffix_def)
  from t zs have "''@_sms_'' @ t = zs @ ('':'' @ d)" by simp
  then obtain us where us:
    "(''@_sms_'' = zs @ us \<and> us @ t = '':'' @ d) \<or> (''@_sms_'' @ us = zs \<and> t = us @ '':'' @ d)"
    unfolding append_eq_append_conv2 by blast
  then show "\<exists>p. h = ''@_sms_'' @ p @ '':'' @ d"
  proof
    assume a: "''@_sms_'' = zs @ us \<and> us @ t = '':'' @ d"
    show ?thesis
    proof (cases us)
      case Nil
      with a t show ?thesis by auto
    next
      case (Cons c cs)
      with a have "c = CHR '':''" by simp
      moreover have "c \<in> set ''@_sms_''"
        using a Cons by (metis in_set_conv_decomp)
      ultimately show ?thesis by simp
    qed
  next
    assume "''@_sms_'' @ us = zs \<and> t = us @ '':'' @ d"
    with t show ?thesis by auto
  qed
next
  assume "\<exists>p. h = ''@_sms_'' @ p @ '':'' @ d"
  then obtain p where p: "h = ''@_sms_'' @ p @ '':'' @ d" ..
  have "prefix ''@_sms_'' h" using p by simp
  moreover have "suffix ('':'' @ d) h"
    unfolding suffix_def using p by (intro exI [of _ "''@_sms_'' @ p"]) simp
  ultimately show "startsWith h ''@_sms_'' \<and> endsWith h ('':'' @ d)"
    by (simp add: startsWith_def endsWith_def)
qed

lemma getSmsIntent_eq: "getSmsIntent cfg p = ''@_sms_'' @ p @ '':'' @ domain cfg"
  by (simp add: getSmsIntent_def getIntentFromLocalpart_def)

text \<open>
  Claim C6, as stated, asks that \<^verbatim>\<open>isBridgeUser\<close> never throws, also on an input that is
  not a string. On \<^verbatim>\<open>undefined\<close> (the \<^verbatim>\<open>state_key\<close> of an event that has none) the call
  \<^verbatim>\<open>handle.startsWith\<close> throws a \<^verbatim>\<open>TypeError\<close>.
\<close>

theorem isBridgeUser_throws_on_undefined: "isBridgeUser ex_cfg Undefined = Inl TypeError"
  by (simp add: isBridgeUser_def)

text \<open>
  Claim C6, amended to the parameter type the function documents (a string): on every
  string, well-formed user id or not, \<^verbatim>\<open>isBridgeUser\<close> returns a boolean without throwing,
  and it returns false when the string is neither the id of the bridge bot nor the id
  \<^verbatim>\<open>getSmsIntent\<close> gives to some phone number on the configured domain.
\<close>

theorem isBridgeUser_total_on_strings:
  "(\<exists>b. isBridgeUser cfg (Str h) = Inr b) \<and>
   (h \<noteq> botUserId cfg \<and> (\<forall>p. h \<noteq> getSmsIntent cfg p) \<longrightarrow> isBridgeUser cfg (Str h) = Inr False)"
proof -
  have "isBridgeUser cfg (Str h) = Inr (botUserId cfg = h \<or> (\<exists>p. h = getSmsIntent cfg p))"
    by (simp only: isBridgeUser_def jsval.case sms_identity_iff getSmsIntent_eq)
  then show ?thesis by auto
qed

text \<open>Instance of C6: a string that is no user id at all.\<close>

theorem isBridgeUser_total_on_strings_witness:
  "isBridgeUser ex_cfg (Str ''not a user id'') = Inr False"
proof -
  have "''not a user id'' \<noteq> getSmsIntent ex_cfg p" for p
    by (simp add: getSmsIntent_eq)
  then show ?thesis
    using isBridgeUser_total_on_strings [of ex_cfg "''not a user id''"] by (simp add: ex_cfg_def)
qed

text \<open>
  Claim C7. \<^verbatim>\<open>isBridgeUser\<close> is true of the id of the bridge bot and of the user id of
  the intent \<^verbatim>\<open>getSmsIntent\<close> returns for any phone number (digit strings included), and
  false of an id that is not the bot's and does not both start with \<^verbatim>\<open>@_sms_\<close> and end with
  \<^verbatim>\<open>:\<close> and the configured domain.
\<close>

theorem isBridgeUser_recognises_bridge_identities:
  "isBridgeUser cfg (Str (botUserId cfg)) = Inr True \<and>
   isBridgeUser cfg (Str (getSmsIntent cfg phoneNumber)) = Inr True \<and>
   (h \<noteq> botUserId cfg \<and> \<not> (startsWith h ''@_sms_'' \<and> endsWith h ('':'' @ domain cfg))
      \<longrightarrow> isBridgeUser cfg (Str h) = Inr False)"
proof -
  have "startsWith (getSmsIntent cfg phoneNumber) ''@_sms_'' \<and>
        endsWith (getSmsIntent cfg phoneNumber) ('':'' @ domain cfg)"
    unfolding sms_identity_iff getSmsIntent_eq by blast
  then show ?thesis by (auto simp: isBridgeUser_def)
qed

text \<open>Instance of C7: the bot, the number 15551234567, and an ordinary user.\<close>

theorem isBridgeUser_recognises_bridge_identities_witness:
  "isBridgeUser ex_cfg (Str ''@smsbot:example.org'') = Inr True \<and>
   isBridgeUser ex_cfg (Str ''@_sms_15551234567:example.org'') = Inr True \<and>
   isBridgeUser ex_cfg (Str ''@alice:example.org'') = Inr False"
  using isBridgeUser_recognises_bridge_identities [of ex_cfg "''15551234567''" "''@alice:example.org''"]
  by (simp add: ex_cfg_def getSmsIntent_eq startsWith_def)

subsection \<open>Rooms that are not administrative\<close>

text \<open>
  Claim C4. When the homeserver reports 0, 1 or at least 3 joined members and no owner
  is forced (\<^verbatim>\<open>adminRoomOwner\<close> is \<^verbatim>\<open>null\<close>, \<^verbatim>\<open>undefined\<close> or empty), \<^verbatim>\<open>_processRoom\<close> resolves
  and leaves the whole state as it was: no directory entry is added or overwritten and
  no welcome text is sent, whatever \<^verbatim>\<open>newRoom\<close> is.
\<close>

theorem processRoom_other_sizes_no_effect:
  assumes "getJoinedMembers tr rid = Inr m" and "length m \<noteq> 2" and "\<not> truthy adminRoomOwner"
  shows "processRoom cfg tr rid adminRoomOwner newRoom s = (Resolved (), s)"
  using assms by (rule processRoom_ordinary)

text \<open>Instance of C4: a room of three, flagged as new, on a fresh bridge.\<close>

theorem processRoom_other_sizes_no_effect_witness:
  "processRoom ex_cfg (ex_env bot_alice_bob) ''!a:example.org'' Null True ex_state0 =
     (Resolved (), ex_state0)"
  using processRoom_other_sizes_no_effect
    [of "ex_env bot_alice_bob" "''!a:example.org''" bot_alice_bob Null]
  by (simp add: ex_env_def bot_alice_bob_def truthy_def)

subsection \<open>Rooms created by \<^verbatim>\<open>getOrCreateAdminRoom\<close>\<close>

text \<open>
  Claim C10. \<^verbatim>\<open>getOrCreateAdminRoom\<close> passes no third argument to \<^verbatim>\<open>_processRoom\<close>, so
  \<^verbatim>\<open>newRoom\<close> is false there: whatever the call does (it finds a session, creates a room
  and registers it, or fails), it sends no welcome text.
\<close>

theorem getOrCreateAdminRoom_sends_no_welcome:
  "sent (snd (getOrCreateAdminRoom cfg tr userId s)) = sent s"
proof (cases "getOrCreateAdminRoom_scan tr userId s")
  case (Pair res s1)
  then have s1: "sent s1 = sent s"
    by (auto simp: getOrCreateAdminRoom_scan_def split: option.splits)
  show ?thesis
  proof (cases res)
    case (Found room)
    with Pair s1 show ?thesis by (simp add: getOrCreateAdminRoom_def)
  next
    case (Creating n)
    have "sent s' = sent s1" if "processRoom cfg tr rid userId False s1 = (r, s')" for rid r s'
      using that by (auto simp: processRoom_def Let_def split: sum.splits if_splits)
    then have "sent (snd (getOrCreateAdminRoom_then cfg tr userId n s1)) = sent s1"
      by (auto simp: getOrCreateAdminRoom_then_def split: sum.splits prod.splits outcome.splits if_splits)
    with Pair Creating s1 show ?thesis by (simp add: getOrCreateAdminRoom_def)
  qed
qed

text \<open>
  Instance of C10: on a fresh bridge the call for Alice creates a room and registers
  it, and nothing has been sent.
\<close>

theorem getOrCreateAdminRoom_sends_no_welcome_witness:
  "sent (snd (getOrCreateAdminRoom ex_cfg (ex_env only_bot) (Str ''@alice:example.org'') ex_state0)) = [] \<and>
   created (snd (getOrCreateAdminRoom ex_cfg (ex_env only_bot) (Str ''@alice:example.org'') ex_state0)) =
     [Str ''@alice:example.org''] \<and>
   fst (getOrCreateAdminRoom ex_cfg (ex_env only_bot) (Str ''@alice:example.org'') ex_state0) =
     Resolved (Session \<lparr>roomId = ''!r1:example.org'', owner = Str ''@alice:example.org''\<rparr>)"
proof -
  have "getOrCreateAdminRoom ex_cfg (ex_env only_bot) (Str ''@alice:example.org'') ex_state0 =
      (Resolved (Session \<lparr>roomId = ''!r1:example.org'', owner = Str ''@alice:example.org''\<rparr>),
       \<lparr>adminRooms =
          \<lparr>props = [(''!r1:example.org'',
                      \<lparr>roomId = ''!r1:example.org'', owner = Str ''@alice:example.org''\<rparr>)],
           proto = None\<rparr>,
        sent = [], created = [Str ''@alice:example.org'']\<rparr>)"
    by (simp add: eval_defs only_bot_def)
  then show ?thesis
    using getOrCreateAdminRoom_sends_no_welcome
      [of ex_cfg "ex_env only_bot" "Str ''@alice:example.org''" ex_state0]
    by simp
qed

subsection \<open>Concurrent and repeated calls of \<^verbatim>\<open>getOrCreateAdminRoom\<close>\<close>


text \<open>
  A session registered under the key \<^verbatim>\<open>__proto__\<close> becomes the prototype of the directory
  and no own property, so the scan of a later call does not see it: were the homeserver to
  name the new room \<^verbatim>\<open>__proto__\<close>, two calls for Alice, one after the other, would create
  two rooms.
\<close>

lemma sequential_calls_with_proto_room:
  "getOrCreateAdminRoom ex_cfg ex_env_proto (Str ''@alice:example.org'') ex_state0 =
     (Resolved (Session \<lparr>roomId = ''__proto__'', owner = Str ''@alice:example.org''\<rparr>),
      \<lparr>adminRooms =
         \<lparr>props = [], proto = Some \<lparr>roomId = ''__proto__'', owner = Str ''@alice:example.org''\<rparr>\<rparr>,
       sent = [], created = [Str ''@alice:example.org'']\<rparr>) \<and>
   getOrCreateAdminRoom ex_cfg ex_env_proto (Str ''@alice:example.org'')
      \<lparr>adminRooms =
         \<lparr>props = [], proto = Some \<lparr>roomId = ''__proto__'', owner = Str ''@alice:example.org''\<rparr>\<rparr>,
       sent = [], created = [Str ''@alice:example.org'']\<rparr> =
     (Resolved (Session \<lparr>roomId = ''!r2:example.org'', owner = Str ''@alice:example.org''\<rparr>),
      \<lparr>adminRooms =
         \<lparr>props = [(''!r2:example.org'',
                     \<lparr>roomId = ''!r2:example.org'', owner = Str ''@alice:example.org''\<rparr>)],
          proto = Some \<lparr>roomId = ''__proto__'', owner = Str ''@alice:example.org''\<rparr>\<rparr>,
       sent = [], created = [Str ''@alice:example.org'', Str ''@alice:example.org'']\<rparr>)"
  by (simp add: eval_defs ex_env_proto_def only_bot_def)



subsection \<open>Two-party rooms\<close>

text \<open>
  Claim C1, as stated, fails in three ways. The owner scan of \<^verbatim>\<open>getOrCreateAdminRoom\<close>
  returns the first session of the owner in key order: when a startup scan has classified
  \<^verbatim>\<open>!a:example.org\<close> and then \<^verbatim>\<open>!b:example.org\<close>, both rooms of the bot and Alice, the lookup
  for Alice returns the session of \<^verbatim>\<open>!a:example.org\<close>, not that of the room classified last.
  A member whose id is the empty string is falsy, so the session gets the owner \<^verbatim>\<open>null\<close>.
  And a room called \<^verbatim>\<open>__proto__\<close> is registered as the prototype of the directory, which the
  scan does not see: the lookup for Alice creates a room.
\<close>

theorem owner_lookup_returns_earlier_room:
  "fst (getOrCreateAdminRoom ex_cfg (ex_env bot_and_alice) (Str ''@alice:example.org'')
     (snd (processRoom ex_cfg (ex_env bot_and_alice) ''!b:example.org'' Null False
       (snd (processRoom ex_cfg (ex_env bot_and_alice) ''!a:example.org'' Null False ex_state0)))))
     = Resolved (Session \<lparr>roomId = ''!a:example.org'', owner = Str ''@alice:example.org''\<rparr>) \<and>
   processRoom ex_cfg (ex_env bot_and_nameless) ''!a:example.org'' Null False ex_state0 =
     (Resolved (),
      \<lparr>adminRooms =
         \<lparr>props = [(''!a:example.org'', \<lparr>roomId = ''!a:example.org'', owner = Null\<rparr>)], proto = None\<rparr>,
       sent = [], created = []\<rparr>) \<and>
   getOrCreateAdminRoom ex_cfg (ex_env bot_and_alice) (Str ''@alice:example.org'')
     (snd (processRoom ex_cfg (ex_env bot_and_alice) ''__proto__'' Null False ex_state0)) =
     (Resolved (Session \<lparr>roomId = ''!r1:example.org'', owner = Str ''@alice:example.org''\<rparr>),
      \<lparr>adminRooms =
         \<lparr>props = [(''!r1:example.org'',
                     \<lparr>roomId = ''!r1:example.org'', owner = Str ''@alice:example.org''\<rparr>)],
          proto = Some \<lparr>roomId = ''__proto__'', owner = Str ''@alice:example.org''\<rparr>\<rparr>,
       sent = [], created = [Str ''@alice:example.org'']\<rparr>)"
  by (simp add: eval_defs bot_and_alice_def bot_and_nameless_def)

text \<open>
  Claim C1, amended. When the joined members of a room are exactly two, the bridge bot
  among them, \<^verbatim>\<open>_processRoom\<close> resolves and registers for that room a session whose owner
  \<open>ow\<close> is the member that is not the bot, or, when the id of that member is the empty
  string, the value of \<^verbatim>\<open>adminRoomOwner\<close> (\<^verbatim>\<open>null\<close> when no owner is forced). This holds
  whatever \<^verbatim>\<open>adminRoomOwner\<close> is, so also when no owner is forced. Unless the room is called
  \<^verbatim>\<open>__proto__\<close>, the owner scan of \<^verbatim>\<open>getOrCreateAdminRoom\<close> for \<open>ow\<close> then returns, without
  creating a room, the first session in key order whose owner is \<open>ow\<close>; it is the session
  of the classified room whenever no other room of the directory was registered to that
  owner before the classification.
\<close>

theorem processRoom_two_party_registers_owner:
  assumes fetch: "getJoinedMembers tr rid = Inr m"
    and m: "distinct (map fst m)" "length m = 2" "botUserId cfg \<in> fst ` set m"
    and u: "u \<in> fst ` set m" "u \<noteq> botUserId cfg"
    and ow: "ow = js_or (Str u) (if adminRoomOwner = Undefined then Null else adminRoomOwner)"
    and run: "processRoom cfg tr rid adminRoomOwner newRoom s = (r, s')"
  shows "r = Resolved () \<and>
         (u \<noteq> [] \<longrightarrow> ow = Str u) \<and>
         (u = [] \<longrightarrow> ow = (if adminRoomOwner = Undefined then Null else adminRoomOwner)) \<and>
         js_get tr' (adminRooms s') rid = Session \<lparr>roomId = rid, owner = ow\<rparr> \<and>
         (rid \<noteq> ''__proto__'' \<longrightarrow>
            (\<exists>room. getOrCreateAdminRoom cfg tr' ow s' = (Resolved (Session room), s') \<and>
               find (\<lambda>room. owner room = ow)
                 (List.map_filter (map_of (props (adminRooms s'))) (js_keys (props (adminRooms s'))))
                 = Some room \<and>
               ((\<forall>p \<in> set (props (adminRooms s)). fst p \<noteq> rid \<longrightarrow> owner (snd p) \<noteq> ow) \<longrightarrow>
                  room = \<lparr>roomId = rid, owner = ow\<rparr>)))"
proof -
  let ?new = "\<lparr>roomId = rid, owner = ow\<rparr>"
  let ?d = "props (adminRooms s)" and ?d' = "props (adminRooms s')"
  obtain a b where ab: "js_keys m = [a, b]" "a \<noteq> b" "fst ` set m = {a, b}"
    using m(1,2) by (rule two_keys)
  have other: "(if a = botUserId cfg then b else a) = u"
    using ab m(3) u by auto
  have idx: "js_index (js_keys m) (if indexOf (js_keys m) (botUserId cfg) = 0 then 1 else 0) = Str u"
    by (simp only: ab(1) other_of_two other)
  note adm = processRoom_admin [OF fetch disjI1 [OF m(2)] run]
  from adm have r: "r = Resolved ()" by (rule conjunct1)
  from adm have dir: "adminRooms s' = js_set (adminRooms s) rid ?new"
    by (simp only: idx ow [symmetric])
  have picked: "(u \<noteq> [] \<longrightarrow> ow = Str u) \<and>
      (u = [] \<longrightarrow> ow = (if adminRoomOwner = Undefined then Null else adminRoomOwner))"
    by (simp add: ow js_or_def truthy_def)
  have reg: "js_get tr' (adminRooms s') rid = Session ?new"
    unfolding dir by (rule js_get_js_set_same)
  have scan: "\<exists>room. getOrCreateAdminRoom cfg tr' ow s' = (Resolved (Session room), s') \<and>
      find (\<lambda>room. owner room = ow) (List.map_filter (map_of ?d') (js_keys ?d')) = Some room \<and>
      ((\<forall>p \<in> set ?d. fst p \<noteq> rid \<longrightarrow> owner (snd p) \<noteq> ow) \<longrightarrow> room = ?new)"
    if ordinary: "rid \<noteq> ''__proto__''"
  proof -
    have d': "?d' = AList.update rid ?new ?d"
      unfolding dir using ordinary by (rule props_js_set)
    have "rid \<in> set (js_keys ?d')" and "map_of ?d' rid = Some ?new"
      by (simp_all add: d' set_js_keys dom_update update_conv')
    then obtain room where
      found: "find (\<lambda>room. owner room = ow) (List.map_filter (map_of ?d') (js_keys ?d')) = Some room"
      using find_sessions_exists [of rid "js_keys ?d'" ?d' ?new ow] by auto
    then have "ownerScan tr' (adminRooms s') (js_keys ?d') ow = Some (Session room)"
      by (simp add: scan_find)
    then have call: "getOrCreateAdminRoom cfg tr' ow s' = (Resolved (Session room), s')"
      by (simp add: getOrCreateAdminRoom_def getOrCreateAdminRoom_scan_def)
    from find_sessions_lookup [OF found]
    obtain k where o: "owner room = ow" and k: "map_of ?d' k = Some room"
      by blast
    have "room = ?new"
      if others: "\<forall>p \<in> set ?d. fst p \<noteq> rid \<longrightarrow> owner (snd p) \<noteq> ow"
    proof (cases "k = rid")
      case True
      with k show ?thesis by (simp add: d' update_conv')
    next
      case False
      with k have "map_of ?d k = Some room"
        by (simp add: d' update_conv')
      then have "(k, room) \<in> set ?d" by (rule map_of_SomeD)
      with others False o show ?thesis by fastforce
    qed
    with call found show ?thesis by blast
  qed
  from r picked reg scan show ?thesis by blast
qed

text \<open>Instance of C1: the bot joins a new room with Alice on a fresh bridge.\<close>

theorem processRoom_two_party_registers_owner_witness:
  "getOrCreateAdminRoom ex_cfg (ex_env bot_and_alice) (Str ''@alice:example.org'')
      \<lparr>adminRooms =
         \<lparr>props = [(''!a:example.org'',
                     \<lparr>roomId = ''!a:example.org'', owner = Str ''@alice:example.org''\<rparr>)],
          proto = None\<rparr>,
       sent = [(''!a:example.org'', welcomeText)], created = []\<rparr> =
     (Resolved (Session \<lparr>roomId = ''!a:example.org'', owner = Str ''@alice:example.org''\<rparr>),
      \<lparr>adminRooms =
         \<lparr>props = [(''!a:example.org'',
                     \<lparr>roomId = ''!a:example.org'', owner = Str ''@alice:example.org''\<rparr>)],
          proto = None\<rparr>,
       sent = [(''!a:example.org'', welcomeText)], created = []\<rparr>)"
proof -
  have run: "processRoom ex_cfg (ex_env bot_and_alice) ''!a:example.org'' Null True ex_state0 =
     (Resolved (),
      \<lparr>adminRooms =
         \<lparr>props = [(''!a:example.org'',
                     \<lparr>roomId = ''!a:example.org'', owner = Str ''@alice:example.org''\<rparr>)],
          proto = None\<rparr>,
       sent = [(''!a:example.org'', welcomeText)], created = []\<rparr>)"
    by (simp add: eval_defs bot_and_alice_def)
  have fetch: "getJoinedMembers (ex_env bot_and_alice) ''!a:example.org'' = Inr bot_and_alice"
    by (simp add: ex_env_def)
  have ow: "Str ''@alice:example.org'' = js_or (Str ''@alice:example.org'') (if Null = Undefined then Null else Null)"
    by (simp add: js_or_def truthy_def)
  show ?thesis
    using processRoom_two_party_registers_owner
      [OF fetch _ _ _ _ _ ow run, of "ex_env bot_and_alice"]
    by (simp add: bot_and_alice_def ex_cfg_def ex_state0_def)
qed

subsection \<open>A forced owner\<close>

lemma indexOf_zero: "indexOf ks b = 0 \<longleftrightarrow> ks \<noteq> [] \<and> hd ks = b"
  by (cases ks) (auto simp: Let_def)

lemma forced_owner_within:
  assumes "distinct ks" and "set ks \<subseteq> {b, u}" and "u \<noteq> []"
  shows "js_or (js_index ks (if indexOf ks b = 0 then 1 else 0)) (Str u) = Str u"
proof (cases ks)
  case Nil
  then show ?thesis by (simp add: js_index_def js_or_def truthy_def)
next
  case (Cons x xs)
  show ?thesis
  proof (cases "x = b")
    case True
    show ?thesis
    proof (cases xs)
      case Nil
      with Cons True show ?thesis by (simp add: js_index_def js_or_def truthy_def)
    next
      case (Cons y ys)
      with \<open>ks = x # xs\<close> True assms(1,2) have "y = u" by auto
      with Cons \<open>ks = x # xs\<close> True assms(3) show ?thesis
        by (simp add: js_index_def js_or_def truthy_def)
    qed
  next
    case False
    with Cons assms(2) have "x = u" by auto
    with Cons False assms(3) show ?thesis
      by (simp add: indexOf_zero js_index_def js_or_def truthy_def del: indexOf.simps)
  qed
qed

text \<open>
  Claim C2, as stated, asks that a forced owner is always the owner of the session. The
  session is built with \<^verbatim>\<open>otherUserId || adminRoomOwner\<close>: a member found beside the bot
  wins. Called with the members bot and Alice and the forced owner Bob, \<^verbatim>\<open>_processRoom\<close>
  registers a session of Alice.
\<close>

theorem processRoom_forced_owner_overridden:
  "processRoom ex_cfg (ex_env bot_and_alice) ''!a:example.org'' (Str ''@bob:example.org'') False ex_state0 =
     (Resolved (),
      \<lparr>adminRooms =
         \<lparr>props = [(''!a:example.org'',
                     \<lparr>roomId = ''!a:example.org'', owner = Str ''@alice:example.org''\<rparr>)],
          proto = None\<rparr>,
       sent = [], created = []\<rparr>)"
  by (simp add: eval_defs bot_and_alice_def)

text \<open>
  Claim C2, amended. Whenever \<^verbatim>\<open>adminRoomOwner\<close> is present (truthy), whatever the member
  count, \<^verbatim>\<open>_processRoom\<close> resolves and assigns to the directory, under the room's id, a
  session whose owner is the member at the probed position of the member list (the
  second when the bot is listed first, else the first) if there is one and its id is not
  empty, and the forced owner otherwise. In particular the owner is the forced owner
  whenever the joined members lie within the bot and the forced owner, as they do in the
  room \<^verbatim>\<open>getOrCreateAdminRoom\<close> has just created with that user as the only invitee.
\<close>

theorem processRoom_forced_owner:
  assumes fetch: "getJoinedMembers tr rid = Inr m"
    and forced: "truthy adminRoomOwner"
    and probe: "i = (if js_keys m \<noteq> [] \<and> hd (js_keys m) = botUserId cfg then 1 else 0)"
    and run: "processRoom cfg tr rid adminRoomOwner newRoom s = (r, s')"
  shows "r = Resolved () \<and>
         adminRooms s' = js_set (adminRooms s) rid
           \<lparr>roomId = rid,
            owner = (if i < length m \<and> js_keys m ! i \<noteq> [] then Str (js_keys m ! i)
                     else adminRoomOwner)\<rparr> \<and>
         (distinct (map fst m) \<and> fst ` set m \<subseteq> {botUserId cfg, u} \<and> adminRoomOwner = Str u \<longrightarrow>
            adminRooms s' = js_set (adminRooms s) rid \<lparr>roomId = rid, owner = adminRoomOwner\<rparr>)"
proof -
  let ?probed = "js_index (js_keys m) (if indexOf (js_keys m) (botUserId cfg) = 0 then 1 else 0)"
  from forced have given: "(if adminRoomOwner = Undefined then Null else adminRoomOwner) = adminRoomOwner"
    by (auto simp: truthy_def)
  note adm = processRoom_admin [OF fetch disjI2 [OF forced] run]
  from adm have r: "r = Resolved ()" by (rule conjunct1)
  from adm have dir: "adminRooms s' = js_set (adminRooms s) rid
      \<lparr>roomId = rid, owner = js_or ?probed adminRoomOwner\<rparr>"
    by (simp only: given)
  have "js_or ?probed adminRoomOwner =
      (if i < length m \<and> js_keys m ! i \<noteq> [] then Str (js_keys m ! i) else adminRoomOwner)"
    by (simp add: probe indexOf_zero js_index_def js_or_def truthy_def length_js_keys)
  with dir have general: "adminRooms s' = js_set (adminRooms s) rid
      \<lparr>roomId = rid,
       owner = (if i < length m \<and> js_keys m ! i \<noteq> [] then Str (js_keys m ! i)
                else adminRoomOwner)\<rparr>"
    by simp
  have "adminRooms s' = js_set (adminRooms s) rid \<lparr>roomId = rid, owner = adminRoomOwner\<rparr>"
    if within: "distinct (map fst m)" "fst ` set m \<subseteq> {botUserId cfg, u}" "adminRoomOwner = Str u"
  proof -
    from within(3) forced have "u \<noteq> []" by (simp add: truthy_def)
    moreover have "distinct (js_keys m)" using within(1) by (rule distinct_js_keys)
    moreover have "set (js_keys m) \<subseteq> {botUserId cfg, u}"
      using within(2) by (simp add: set_js_keys)
    ultimately have "js_or ?probed (Str u) = Str u"
      by (intro forced_owner_within)
    with dir within(3) show ?thesis by simp
  qed
  with r general show ?thesis by blast
qed

text \<open>Instance of C2: the room just created for Alice, where the bot is alone.\<close>

theorem processRoom_forced_owner_witness:
  "fst (processRoom ex_cfg (ex_env only_bot) ''!r1:example.org'' (Str ''@alice:example.org'') False
          ex_state0) = Resolved () \<and>
   adminRooms (snd (processRoom ex_cfg (ex_env only_bot) ''!r1:example.org''
          (Str ''@alice:example.org'') False ex_state0)) =
     \<lparr>props = [(''!r1:example.org'',
                 \<lparr>roomId = ''!r1:example.org'', owner = Str ''@alice:example.org''\<rparr>)],
      proto = None\<rparr>"
proof -
  have fetch: "getJoinedMembers (ex_env only_bot) ''!r1:example.org'' = Inr only_bot"
    by (simp add: ex_env_def)
  have forced: "truthy (Str ''@alice:example.org'')"
    by (simp add: truthy_def)
  have within: "distinct (map fst only_bot) \<and>
      fst ` set only_bot \<subseteq> {botUserId ex_cfg, ''@alice:example.org''} \<and>
      Str ''@alice:example.org'' = Str ''@alice:example.org''"
    by (simp add: only_bot_def ex_cfg_def)
  obtain r s' where run:
    "processRoom ex_cfg (ex_env only_bot) ''!r1:example.org'' (Str ''@alice:example.org'') False ex_state0 = (r, s')"
    by (cases "processRoom ex_cfg (ex_env only_bot) ''!r1:example.org'' (Str ''@alice:example.org'') False ex_state0")
  note inst = processRoom_forced_owner [OF fetch forced refl run, of "''@alice:example.org''"]
  from inst have "r = Resolved ()" by (rule conjunct1)
  moreover from inst [THEN conjunct2, THEN conjunct2, THEN mp, OF within]
  have "adminRooms s' = js_set (adminRooms ex_state0) ''!r1:example.org''
       \<lparr>roomId = ''!r1:example.org'', owner = Str ''@alice:example.org''\<rparr>" .
  ultimately show ?thesis
    unfolding run by (simp add: js_set_def ex_state0_def)
qed

subsection \<open>Classifying a room twice\<close>

text \<open>
  Claim C3, as stated, promises exactly one directory entry for the room after two
  classifications with identical inputs. A room of three members classifies as ordinary
  both times and has no entry; and a two-party room called \<^verbatim>\<open>__proto__\<close> is registered as
  the prototype of the directory, not as an entry.
\<close>

theorem processRoom_twice_without_entry:
  "props (adminRooms (snd (processRoom ex_cfg (ex_env bot_alice_bob) ''!a:example.org'' Null False
      (snd (processRoom ex_cfg (ex_env bot_alice_bob) ''!a:example.org'' Null True ex_state0))))) = [] \<and>
   props (adminRooms (snd (processRoom ex_cfg (ex_env bot_and_alice) ''__proto__'' Null False
      (snd (processRoom ex_cfg (ex_env bot_and_alice) ''__proto__'' Null True ex_state0))))) = []"
  by (simp add: eval_defs bot_alice_bob_def bot_and_alice_def)

text \<open>
  Claim C3, amended. Two calls of \<^verbatim>\<open>_processRoom\<close> in succession for the same room, with the
  same joined members and the same \<^verbatim>\<open>adminRoomOwner\<close>, both resolve, and the directory after
  the second call equals the directory after the first: there is no separate
  confirmation, the second call builds a new session with the same room id and owner and
  assigns it over the first. The directory never holds more than one entry for the room.
  When the room classifies as administrative (two members, or a forced owner) the room
  resolves to a session of its id, which is exactly one entry unless the room is called
  \<^verbatim>\<open>__proto__\<close>; when it does not, both calls leave the directory as it was, with no entry
  for the room unless one was there before. One welcome text is sent for each of the two
  calls that has \<^verbatim>\<open>newRoom\<close> true on an administrative room; so with \<^verbatim>\<open>newRoom\<close> false in
  the second call, that call changes nothing at all and at most one welcome text is sent
  over both.
\<close>

theorem processRoom_twice:
  assumes inv: "distinct (map fst (props (adminRooms s)))"
    and fetch: "getJoinedMembers tr rid = Inr m"
    and admin: "admin = (length m = 2 \<or> truthy adminRoomOwner)"
    and first: "processRoom cfg tr rid adminRoomOwner newRoom1 s = (r1, s1)"
    and second: "processRoom cfg tr rid adminRoomOwner newRoom2 s1 = (r2, s2)"
  shows "r1 = Resolved () \<and> r2 = Resolved () \<and>
         adminRooms s2 = adminRooms s1 \<and>
         length (filter (\<lambda>p. fst p = rid) (props (adminRooms s2))) \<le> 1 \<and>
         (admin \<longrightarrow> (\<exists>room. js_get tr' (adminRooms s2) rid = Session room \<and> roomId room = rid)) \<and>
         (admin \<and> rid \<noteq> ''__proto__'' \<longrightarrow>
            length (filter (\<lambda>p. fst p = rid) (props (adminRooms s2))) = 1) \<and>
         (\<not> admin \<longrightarrow> adminRooms s2 = adminRooms s) \<and>
         sent s2 =
           sent s @ (if admin \<and> newRoom1 then [(rid, welcomeText)] else [])
                  @ (if admin \<and> newRoom2 then [(rid, welcomeText)] else []) \<and>
         (\<not> newRoom2 \<longrightarrow> s2 = s1 \<and> length (sent s2) \<le> length (sent s) + 1)"
proof (cases admin)
  case True
  then have cond: "length m = 2 \<or> truthy adminRoomOwner"
    by (simp add: admin)
  note a1 = processRoom_admin [OF fetch cond first]
  note a2 = processRoom_admin [OF fetch cond second]
  from a1 a2 have dir: "adminRooms s2 = adminRooms s1"
    by (simp add: js_set_twice)
  from a1 inv have d: "distinct (map fst (props (adminRooms s1)))"
    by (simp add: distinct_js_set)
  from a1 obtain room where room: "js_get tr' (adminRooms s1) rid = Session room" "roomId room = rid"
    by (auto simp: js_get_js_set_same)
  have one: "length (filter (\<lambda>p. fst p = rid) (props (adminRooms s1))) = 1" if "rid \<noteq> ''__proto__''"
  proof -
    from a1 that have "rid \<in> fst ` set (props (adminRooms s1))"
      by (simp add: key_js_set)
    with d show ?thesis by (rule count_key_eq)
  qed
  have same: "s2 = s1" if "\<not> newRoom2"
  proof -
    from a2 that have "sent s2 = sent s1" and "created s2 = created s1" by simp_all
    with dir show ?thesis by simp
  qed
  from a1 a2 True dir room one same count_key_le [OF d, of rid] show ?thesis
    by auto
next
  case False
  then have o: "length m \<noteq> 2" "\<not> truthy adminRoomOwner"
    by (simp_all add: admin)
  from first processRoom_ordinary [OF fetch o] have 1: "r1 = Resolved ()" "s1 = s" by simp_all
  from second processRoom_ordinary [OF fetch o] have 2: "r2 = Resolved ()" "s2 = s1" by simp_all
  from 1 2 False count_key_le [OF inv, of rid] show ?thesis by simp
qed

text \<open>Instance of C3: the room of the bot and Alice, new at the first call.\<close>

theorem processRoom_twice_witness:
  "processRoom ex_cfg (ex_env bot_and_alice) ''!a:example.org'' Null False
      \<lparr>adminRooms =
         \<lparr>props = [(''!a:example.org'',
                     \<lparr>roomId = ''!a:example.org'', owner = Str ''@alice:example.org''\<rparr>)],
          proto = None\<rparr>,
       sent = [(''!a:example.org'', welcomeText)], created = []\<rparr> =
     (Resolved (),
      \<lparr>adminRooms =
         \<lparr>props = [(''!a:example.org'',
                     \<lparr>roomId = ''!a:example.org'', owner = Str ''@alice:example.org''\<rparr>)],
          proto = None\<rparr>,
       sent = [(''!a:example.org'', welcomeText)], created = []\<rparr>) \<and>
   length (filter (\<lambda>p. fst p = ''!a:example.org'')
      [(''!a:example.org'', \<lparr>roomId = ''!a:example.org'', owner = Str ''@alice:example.org''\<rparr>)]) = 1"
proof -
  let ?s1 = "\<lparr>adminRooms =
         \<lparr>props = [(''!a:example.org'',
                     \<lparr>roomId = ''!a:example.org'', owner = Str ''@alice:example.org''\<rparr>)],
          proto = None\<rparr>,
       sent = [(''!a:example.org'', welcomeText)], created = []\<rparr>"
  have first: "processRoom ex_cfg (ex_env bot_and_alice) ''!a:example.org'' Null True ex_state0 =
      (Resolved (), ?s1)"
    by (simp add: eval_defs bot_and_alice_def)
  have second: "processRoom ex_cfg (ex_env bot_and_alice) ''!a:example.org'' Null False ?s1 =
      (Resolved (), ?s1)"
    by (simp add: eval_defs bot_and_alice_def)
  have inv: "distinct (map fst (props (adminRooms ex_state0)))"
    by (simp add: ex_state0_def)
  have fetch: "getJoinedMembers (ex_env bot_and_alice) ''!a:example.org'' = Inr bot_and_alice"
    by (simp add: ex_env_def)
  show ?thesis
    using processRoom_twice [OF inv fetch refl first second] second
    by (simp add: bot_and_alice_def)
qed

subsection \<open>Two members, the bot not among them\<close>

text \<open>
  Claim C5 asks for a classification failure when two members are joined and neither is
  the bot. \<^verbatim>\<open>_processRoom\<close> computes \<^verbatim>\<open>botIdx\<close> to find the other party, but \<^verbatim>\<open>indexOf\<close> gives
  -1 there and \<^verbatim>\<open>botIdx == 0 ? 1 : 0\<close> treats it as "the bot is second". The case arises in
  the invite flow of \<^verbatim>\<open>_onEvent\<close>: once the virtual user has joined the room it was invited
  to, the joined members are the inviting user and the virtual user, and the room, meant
  to be bridged, is registered as an administrative room of the member listed first and
  greeted with the welcome text.
\<close>

theorem onEvent_invite_registers_admin_room:
  "onEvent ex_cfg (ex_env alice_and_virtual) ex_invite ex_state0 =
     (Resolved (),
      \<lparr>adminRooms =
         \<lparr>props = [(''!a:example.org'',
                     \<lparr>roomId = ''!a:example.org'', owner = Str ''@alice:example.org''\<rparr>)],
          proto = None\<rparr>,
       sent = [(''!a:example.org'', welcomeText)], created = []\<rparr>)"
  by (simp add: onEvent_def tryProcessAdminEvent_def inviteForBridgeUser_def isBridgeUser_def
      startsWith_def endsWith_def suffix_to_prefix ex_invite_def alice_and_virtual_def eval_defs)

subsection \<open>The event handler\<close>

text \<open>
  Claim C9, as stated, asks that \<^verbatim>\<open>_onEvent\<close> never throws synchronously. \<^verbatim>\<open>_onEvent\<close> has no
  \<^verbatim>\<open>try\<close>: reading \<^verbatim>\<open>event.content.membership\<close> of a membership event that lacks its content
  throws a \<^verbatim>\<open>TypeError\<close>, and so does any event for a room called \<^verbatim>\<open>constructor\<close>, where the
  directory lookup finds the inherited function and calls its missing \<^verbatim>\<open>handleEvent\<close>.
\<close>

theorem onEvent_throws_without_content:
  "onEvent ex_cfg (ex_env only_bot) ex_member_event_without_content ex_state0 =
     (Throws TypeError, ex_state0) \<and>
   onEvent ex_cfg (ex_env only_bot) ex_topic_event_constructor ex_state0 =
     (Throws TypeError, ex_state0)"
  by (simp add: onEvent_def tryProcessAdminEvent_def inviteForBridgeUser_def js_get_def
      objectPrototype_def ex_member_event_without_content_def ex_topic_event_constructor_def
      ex_state0_def)

text \<open>
  Claim C9, amended. \<^verbatim>\<open>_onEvent\<close> throws synchronously in exactly three cases: the lookup
  \<^verbatim>\<open>this._adminRooms[event.room_id]\<close> gives a session whose \<^verbatim>\<open>handleEvent\<close> throws, or a
  truthy value that is no session (a property the directory object inherits); the event
  is a membership event without content; the event is an invite whose \<^verbatim>\<open>state_key\<close> is not
  a string. Failures are not caught or logged by \<^verbatim>\<open>_onEvent\<close>: when the join or the fetch of
  the joined members fails, the promise that \<^verbatim>\<open>_onEvent\<close> returns is rejected with that
  failure.
\<close>

theorem onEvent_throws_iff:
  "((\<exists>e. fst (onEvent cfg tr ev s) = Throws e) \<longleftrightarrow>
      (case js_get tr (adminRooms s) (room_id ev) of
         Session room \<Rightarrow> (\<exists>e. handleEvent tr room ev s = Inl e)
       | Builtin \<Rightarrow> True
       | Plain v \<Rightarrow> truthy v) \<or>
      (type ev = ''m.room.member'' \<and> content ev = None) \<or>
      (type ev = ''m.room.member'' \<and> (\<exists>c. content ev = Some c \<and> membership c = Str ''invite'') \<and>
         (\<forall>u. state_key ev \<noteq> Str u))) \<and>
   (\<forall>s1 u e. tryProcessAdminEvent tr ev s = Inr s1 \<and> inviteForBridgeUser cfg ev = Inr True \<and>
      state_key ev = Str u \<and> join tr u (room_id ev) = Some e \<longrightarrow>
      onEvent cfg tr ev s = (Rejected e, s1)) \<and>
   (\<forall>s1 u e. tryProcessAdminEvent tr ev s = Inr s1 \<and> inviteForBridgeUser cfg ev = Inr True \<and>
      state_key ev = Str u \<and> join tr u (room_id ev) = None \<and>
      getJoinedMembers tr (room_id ev) = Inl e \<longrightarrow>
      onEvent cfg tr ev s = (Rejected e, s1))"
proof -
  let ?dispatch = "case js_get tr (adminRooms s) (room_id ev) of
         Session room \<Rightarrow> (\<exists>e. handleEvent tr room ev s = Inl e)
       | Builtin \<Rightarrow> True
       | Plain v \<Rightarrow> truthy v"
  let ?malformed = "(type ev = ''m.room.member'' \<and> content ev = None) \<or>
      (type ev = ''m.room.member'' \<and> (\<exists>c. content ev = Some c \<and> membership c = Str ''invite'') \<and>
         (\<forall>u. state_key ev \<noteq> Str u))"
  have dispatch: "(\<exists>e. tryProcessAdminEvent tr ev s = Inl e) \<longleftrightarrow> ?dispatch"
    by (auto simp: tryProcessAdminEvent_def split: dirval.splits)
  have cond: "(\<exists>e. inviteForBridgeUser cfg ev = Inl e) \<longleftrightarrow> ?malformed"
    by (auto simp: inviteForBridgeUser_def isBridgeUser_def split: option.splits jsval.splits)
  have str: "\<exists>u. state_key ev = Str u" if "inviteForBridgeUser cfg ev = Inr True"
    using that
    by (auto simp: inviteForBridgeUser_def isBridgeUser_def split: option.splits if_splits jsval.splits)
  have throws: "(\<exists>e. fst (onEvent cfg tr ev s) = Throws e) \<longleftrightarrow> ?dispatch \<or> ?malformed"
  proof (cases "tryProcessAdminEvent tr ev s")
    case (Inl e)
    then have "fst (onEvent cfg tr ev s) = Throws e"
      by (simp add: onEvent_def)
    moreover from Inl dispatch have ?dispatch by blast
    ultimately show ?thesis by blast
  next
    case (Inr s1)
    with dispatch have nd: "\<not> ?dispatch" by simp
    show ?thesis
    proof (cases "inviteForBridgeUser cfg ev")
      case (Inl e)
      with Inr have "fst (onEvent cfg tr ev s) = Throws e"
        by (simp add: onEvent_def)
      moreover from Inl cond have ?malformed by blast
      ultimately show ?thesis by blast
    next
      case inv: (Inr b)
      with cond have nm: "\<not> ?malformed" by simp
      have "fst (onEvent cfg tr ev s) \<noteq> Throws e" for e
      proof (cases b)
        case True
        with inv have "inviteForBridgeUser cfg ev = Inr True" by simp
        with str obtain u where "state_key ev = Str u" by blast
        with Inr inv True show ?thesis
          using processRoom_never_throws [of cfg tr "room_id ev" Null True s1 e]
          by (simp add: onEvent_def split: option.splits)
      next
        case False
        with Inr inv show ?thesis
          by (simp add: onEvent_def processMessage_def)
      qed
      with nd nm show ?thesis by blast
    qed
  qed
  moreover have "onEvent cfg tr ev s = (Rejected e, s1)"
    if "tryProcessAdminEvent tr ev s = Inr s1" "inviteForBridgeUser cfg ev = Inr True"
      "state_key ev = Str u" "join tr u (room_id ev) = Some e"
    for s1 u e
    using that by (simp add: onEvent_def)
  moreover have "onEvent cfg tr ev s = (Rejected e, s1)"
    if "tryProcessAdminEvent tr ev s = Inr s1" "inviteForBridgeUser cfg ev = Inr True"
      "state_key ev = Str u" "join tr u (room_id ev) = None"
      "getJoinedMembers tr (room_id ev) = Inl e"
    for s1 u e
    using that by (simp add: onEvent_def processRoom_rejected)
  ultimately show ?thesis by blast
qed

text \<open>Instance of C9: an invite for a virtual user while the homeserver cannot be reached.\<close>

theorem onEvent_throws_iff_witness:
  "onEvent ex_cfg ex_env_down ex_invite ex_state0 = (Rejected TransportError, ex_state0)"
proof -
  have handler: "tryProcessAdminEvent ex_env_down ex_invite ex_state0 = Inr ex_state0"
    by (simp add: tryProcessAdminEvent_def js_get_def objectPrototype_def ex_state0_def
        ex_invite_def truthy_def)
  have cond: "inviteForBridgeUser ex_cfg ex_invite = Inr True"
    by (simp add: inviteForBridgeUser_def isBridgeUser_def ex_invite_def ex_cfg_def
        startsWith_def endsWith_def suffix_to_prefix)
  have facts: "state_key ex_invite = Str ''@_sms_15551234567:example.org''"
    "join ex_env_down ''@_sms_15551234567:example.org'' (room_id ex_invite) = None"
    "getJoinedMembers ex_env_down (room_id ex_invite) = Inl TransportError"
    by (simp_all add: ex_invite_def ex_env_down_def)
  from onEvent_throws_iff [of ex_cfg ex_env_down ex_invite ex_state0]
  have "\<forall>s1 u e. tryProcessAdminEvent ex_env_down ex_invite ex_state0 = Inr s1 \<and>
      inviteForBridgeUser ex_cfg ex_invite = Inr True \<and>
      state_key ex_invite = Str u \<and> join ex_env_down u (room_id ex_invite) = None \<and>
      getJoinedMembers ex_env_down (room_id ex_invite) = Inl e \<longrightarrow>
      onEvent ex_cfg ex_env_down ex_invite ex_state0 = (Rejected e, s1)"
    by (rule conjunct2 [THEN conjunct2])
  with handler cond facts show ?thesis by blast
qed

end
